theory Spec2Isabelle
  imports Complex_Main "HOL-Library.Word" "HOL-Library.Monad_Syntax"
begin

section \<open>The parking sensor sketch (ObjectSensor.ino)\<close>

text \<open>
  The sketch drives an HC-SR04 ultrasonic module, converts the echo time to a distance,
  prints it to an LCD and to the serial line, and blinks an LED when the distance is
  below a limit. The model follows the source function by function. The LCD object
  and its six pin numbers are not modelled beyond the calls made on the object.

  Numbers. A value of the C++ types \<open>double\<close> and \<open>float\<close> is the \<^typ>\<open>real\<close> it
  stands for, and the arithmetic on them rounds as the formats do. \<open>unsigned long\<close>
  (the result of \<open>pulseIn\<close>, the argument of \<open>delay\<close>) is a 32-bit word, \<open>int\<close> is
  \<^typ>\<open>int\<close>; converting either to \<open>double\<close> is exact.
\<close>

subsection \<open>Constants and globals\<close>

definition LED :: nat where "LED = 3"
definition TRIG :: nat where "TRIG = 9"
definition ECHO :: nat where "ECHO = 8"
definition SPEED_OF_SOUND :: int where "SPEED_OF_SOUND = 343"

datatype level = LOW | HIGH

datatype pin_mode = INPUT | OUTPUT

text \<open>
  An Arduino \<open>String\<close> is kept as the pieces it was built from: a number converted to
  text (the decimal rendering is done by the Arduino core, not by the sketch) or a
  literal.
\<close>

datatype piece = Number real | Literal string

type_synonym String = "piece list"

text \<open>What the sketch does to the hardware, in program order.\<close>

datatype event =
    LcdBegin nat nat
  | PinMode nat pin_mode
  | SerialBegin nat
  | DigitalWrite nat level
  | Delay "32 word"
  | PulseIn nat level
  | LcdPrint String
  | SerialPrintln real
  | LcdClear

text \<open>
  The state threaded through the sketch: the global \<open>limit\<close> (declared \<open>int limit = 50;\<close>,
  not \<open>const\<close>), the level last written to each pin, the milliseconds spent in
  \<open>delay\<close>, and the log of hardware operations.
\<close>

record hw =
  limit :: int
  levels :: "nat \<Rightarrow> level"
  blocked_ms :: nat
  trace :: "event list"

text \<open>
  The state before the sketch's \<open>setup()\<close> runs: the static initialiser has set
  \<open>limit\<close> to 50, and after reset every pin is low.
\<close>

definition power_on :: hw where
  "power_on = \<lparr>limit = 50, levels = (\<lambda>_. LOW), blocked_ms = 0, trace = []\<rparr>"

subsection \<open>Floating-point arithmetic\<close>

text \<open>
  A finite floating-point number is modelled by the real number it stands for, and
  every operation rounds its exact result to the format: round to nearest, ties to
  even, as IEEE 754 arithmetic does by default. \<open>round_half_even\<close> rounds to an
  integer; \<open>binary_exponent x\<close> is the \<open>e\<close> with \<open>2\<^sup>e \<le> x < 2\<^sup>e\<^sup>+\<^sup>1\<close> for positive \<open>x\<close>;
  \<open>fp_round p emin\<close> rounds to \<open>p\<close> significant bits, with the spacing of the
  subnormal numbers below \<open>2\<close> to the power \<open>emin\<close>.
\<close>

definition round_half_even :: "real \<Rightarrow> int" where
  "round_half_even x =
     (let n = \<lfloor>x\<rfloor>; r = x - of_int n
      in if r < 1 / 2 then n else if 1 / 2 < r then n + 1 else if even n then n else n + 1)"

function binary_exponent :: "real \<Rightarrow> int" where
  "binary_exponent x =
     (if x \<le> 0 then 0
      else if 2 \<le> x then binary_exponent (x / 2) + 1
      else if x < 1 then binary_exponent (2 * x) - 1
      else 0)"
  by pat_completeness auto
termination
proof (relation "measure (\<lambda>x. nat \<bar>\<lfloor>log 2 x\<rfloor>\<bar>)")
  show "wf (measure (\<lambda>x. nat \<bar>\<lfloor>log 2 x\<rfloor>\<bar>))" by simp
next
  fix x :: real
  assume "\<not> x \<le> 0" "2 \<le> x"
  then have "log 2 (x / 2) = log 2 x - 1" "1 \<le> log 2 x"
    by (simp_all add: log_divide le_log_iff)
  then have "\<lfloor>log 2 (x / 2)\<rfloor> = \<lfloor>log 2 x\<rfloor> - 1" "1 \<le> \<lfloor>log 2 x\<rfloor>"
    by (simp_all add: le_floor_iff)
  then have "\<bar>\<lfloor>log 2 (x / 2)\<rfloor>\<bar> < \<bar>\<lfloor>log 2 x\<rfloor>\<bar>" by linarith
  then show "(x / 2, x) \<in> measure (\<lambda>x. nat \<bar>\<lfloor>log 2 x\<rfloor>\<bar>)" by simp
next
  fix x :: real
  assume "\<not> x \<le> 0" "\<not> 2 \<le> x" "x < 1"
  then have "log 2 (2 * x) = log 2 x + 1" "log 2 x < 0"
    by (simp_all add: log_mult)
  then have "\<lfloor>log 2 (2 * x)\<rfloor> = \<lfloor>log 2 x\<rfloor> + 1" "\<lfloor>log 2 x\<rfloor> < 0"
    by (simp_all add: floor_less_iff)
  then have "\<bar>\<lfloor>log 2 (2 * x)\<rfloor>\<bar> < \<bar>\<lfloor>log 2 x\<rfloor>\<bar>" by linarith
  then show "(2 * x, x) \<in> measure (\<lambda>x. nat \<bar>\<lfloor>log 2 x\<rfloor>\<bar>)" by simp
qed

definition fp_round :: "nat \<Rightarrow> int \<Rightarrow> real \<Rightarrow> real" where
  "fp_round p emin x =
     (let e = max emin (binary_exponent \<bar>x\<bar>);
          q = 2 powi (e - (int p - 1))
      in of_int (round_half_even (x / q)) * q)"

text \<open>
  \<open>double\<close> is IEEE binary64 and \<open>float\<close> is IEEE binary32. (Boards whose compiler
  makes \<open>double\<close> as narrow as \<open>float\<close> round the intermediate results differently.)
  The formats are modelled without their largest exponent: a result of magnitude
  \<open>2\<^sup>1\<^sup>2\<^sup>8\<close> (float) or \<open>2\<^sup>1\<^sup>0\<^sup>2\<^sup>4\<close> (double) and above, which the hardware
  rounds to an infinity, is outside the model, as are infinities, NaN and the sign of
  zero. The results below are about durations up to \<open>2\<^sup>3\<^sup>2\<close> microseconds, whose
  distances stay below \<open>2\<^sup>2\<^sup>7\<close>. \<open>dmul\<close> and \<open>ddiv\<close> are \<open>*\<close> and \<open>/\<close> on \<open>double\<close>.
\<close>

definition to_double :: "real \<Rightarrow> real" where
  "to_double x = fp_round 53 (- 1022) x"

definition to_float :: "real \<Rightarrow> real" where
  "to_float x = fp_round 24 (- 126) x"

definition dmul :: "real \<Rightarrow> real \<Rightarrow> real" where
  "dmul a b = to_double (a * b)"

definition ddiv :: "real \<Rightarrow> real \<Rightarrow> real" where
  "ddiv a b = to_double (a / b)"

subsection \<open>The primitives of the Arduino core used by the sketch\<close>

definition emit :: "event \<Rightarrow> hw \<Rightarrow> hw" where
  "emit ev s = s\<lparr>trace := trace s @ [ev]\<rparr>"

definition lcd_begin :: "nat \<Rightarrow> nat \<Rightarrow> hw \<Rightarrow> hw" where
  "lcd_begin cols rows s = emit (LcdBegin cols rows) s"

definition lcd_print :: "String \<Rightarrow> hw \<Rightarrow> hw" where
  "lcd_print text s = emit (LcdPrint text) s"

definition lcd_clear :: "hw \<Rightarrow> hw" where
  "lcd_clear s = emit LcdClear s"

definition Serial_begin :: "nat \<Rightarrow> hw \<Rightarrow> hw" where
  "Serial_begin baud s = emit (SerialBegin baud) s"

definition Serial_println :: "real \<Rightarrow> hw \<Rightarrow> hw" where
  "Serial_println x s = emit (SerialPrintln x) s"

definition pinMode :: "nat \<Rightarrow> pin_mode \<Rightarrow> hw \<Rightarrow> hw" where
  "pinMode pin m s = emit (PinMode pin m) s"

definition digitalWrite :: "nat \<Rightarrow> level \<Rightarrow> hw \<Rightarrow> hw" where
  "digitalWrite pin v s = emit (DigitalWrite pin v) (s\<lparr>levels := (levels s)(pin := v)\<rparr>)"

definition delay :: "32 word \<Rightarrow> hw \<Rightarrow> hw" where
  "delay ms s = emit (Delay ms) (s\<lparr>blocked_ms := blocked_ms s + unat ms\<rparr>)"

text \<open>
  \<open>delay\<close> is declared \<open>void delay(unsigned long ms)\<close>, so a \<open>double\<close> argument is
  converted implicitly: the fractional part is discarded, and the conversion is
  undefined when the truncated value does not fit the destination type. \<open>None\<close> is
  that undefined case.
\<close>

definition truncate :: "real \<Rightarrow> int" where
  "truncate d = (if 0 \<le> d then \<lfloor>d\<rfloor> else \<lceil>d\<rceil>)"

definition double_to_ulong :: "real \<Rightarrow> 32 word option" where
  "double_to_ulong d =
     (if 0 \<le> truncate d \<and> truncate d < 2 ^ 32 then Some (word_of_int (truncate d)) else None)"

definition delay_double :: "real \<Rightarrow> hw \<Rightarrow> hw option" where
  "delay_double d s = map_option (\<lambda>ms. delay ms s) (double_to_ulong d)"

text \<open>
  What the echo line does during one measurement: a high pulse of some width in
  microseconds, or nothing until the timeout.
\<close>

datatype echo = NoEcho | Echo "32 word"

text \<open>
  Modelled from the spec: \<open>pulseIn\<close> belongs to the Arduino core and is not in the
  sketch. It returns the width of the pulse in microseconds, and "if no echo is
  received within an implementation-defined timeout, returns a zero duration".
\<close>

fun pulse_width :: "echo \<Rightarrow> 32 word" where
  "pulse_width NoEcho = 0"
| "pulse_width (Echo w) = w"

definition pulseIn :: "nat \<Rightarrow> level \<Rightarrow> echo \<Rightarrow> hw \<Rightarrow> 32 word \<times> hw" where
  "pulseIn pin v e s = (pulse_width e, emit (PulseIn pin v) s)"

subsection \<open>The functions of the sketch\<close>

definition sketch_setup :: "hw \<Rightarrow> hw" where
  "sketch_setup s =
     (let s = lcd_begin 16 1 s;
          s = pinMode TRIG OUTPUT s;
          s = pinMode ECHO INPUT s
      in Serial_begin 9600 s)"

text \<open>
  The conversions compute in \<open>double\<close> (the literal \<open>0.0001\<close>, the product with
  \<open>SPEED_OF_SOUND\<close>, the product with the duration, each division) and return the
  result as a \<open>float\<close>.
\<close>

definition calculateDistanceFoot :: "real \<Rightarrow> real" where
  "calculateDistanceFoot timeElapsed =
     to_float (ddiv (ddiv (dmul timeElapsed
       (dmul (real_of_int SPEED_OF_SOUND) (to_double 0.0001))) (to_double 30.48)) 2)"

definition calculateDistanceCM :: "real \<Rightarrow> real" where
  "calculateDistanceCM timeElapsed =
     to_float (ddiv (dmul timeElapsed
       (dmul (real_of_int SPEED_OF_SOUND) (to_double 0.0001))) 2)"

definition sendTrigPulse :: "hw \<Rightarrow> hw" where
  "sendTrigPulse s =
     (let s = digitalWrite TRIG LOW s;
          s = delay 10 s;
          s = digitalWrite TRIG HIGH s;
          s = delay 10 s
      in digitalWrite TRIG LOW s)"

definition getEchoTime :: "echo \<Rightarrow> hw \<Rightarrow> real \<times> hw" where
  "getEchoTime e s = (case pulseIn ECHO HIGH e s of (w, s) \<Rightarrow> (real (unat w), s))"

definition getDistance :: "echo \<Rightarrow> hw \<Rightarrow> real \<times> hw" where
  "getDistance e s =
     (let s = sendTrigPulse s;
          (echoTime, s) = getEchoTime e s
      in (calculateDistanceCM echoTime, s))"

definition lcdDisplayMessage :: "String \<Rightarrow> hw \<Rightarrow> hw" where
  "lcdDisplayMessage text s = lcd_print (text @ [Literal ''cm'']) s"

definition blinkLED :: "real \<Rightarrow> hw \<Rightarrow> hw option" where
  "blinkLED distance s =
     do {
       let s = digitalWrite LED LOW s;
       let s = digitalWrite LED HIGH s;
       s \<leftarrow> delay_double distance s;
       let s = digitalWrite LED LOW s;
       delay_double distance s
     }"

text \<open>
  The body of \<open>loop\<close> after its first statement, as a function of the measured
  distance: print to the LCD, print to the serial line, blink if the distance is below
  \<open>limit\<close>, wait 200 ms, clear the LCD.
\<close>

definition loop_from :: "real \<Rightarrow> hw \<Rightarrow> hw option" where
  "loop_from distance s =
     do {
       let s = lcdDisplayMessage [Number distance] s;
       let s = Serial_println distance s;
       s \<leftarrow> (if distance < real_of_int (limit s) then blinkLED distance s else Some s);
       let s = delay 200 s;
       Some (lcd_clear s)
     }"

definition loop :: "echo \<Rightarrow> hw \<Rightarrow> hw option" where
  "loop e s = (let (distance, s) = getDistance e s in loop_from distance s)"

text \<open>
  The Arduino runtime calls the sketch's \<open>setup()\<close> (here \<open>sketch_setup\<close>) once and
  then \<open>loop\<close> for ever. \<open>cycles\<close> runs one \<open>loop\<close> per element of a list of echo
  behaviours and stops at the first cycle that does not complete; \<open>boot\<close> starts from
  reset.
\<close>

fun cycles :: "echo list \<Rightarrow> hw \<Rightarrow> hw option" where
  "cycles [] s = Some s"
| "cycles (e # es) s = Option.bind (loop e s) (cycles es)"

definition boot :: "echo list \<Rightarrow> hw option" where
  "boot es = cycles es (sketch_setup power_on)"

subsection \<open>Observations on the log\<close>

text \<open>
  \<open>since s s'\<close> is what was logged between the states \<open>s\<close> and \<open>s'\<close>; \<open>writes_pin p\<close>
  holds of the writes to pin \<open>p\<close>; \<open>delays\<close> lists the arguments of the calls of
  \<open>delay\<close>, in order.
\<close>

fun writes_pin :: "nat \<Rightarrow> event \<Rightarrow> bool" where
  "writes_pin p (DigitalWrite q v) = (p = q)"
| "writes_pin p _ = False"

fun delays :: "event list \<Rightarrow> 32 word list" where
  "delays [] = []"
| "delays (Delay ms # evs) = ms # delays evs"
| "delays (_ # evs) = delays evs"

definition since :: "hw \<Rightarrow> hw \<Rightarrow> event list" where
  "since s s' = drop (length (trace s)) (trace s')"

section \<open>Basic facts\<close>

lemmas pin_defs = LED_def TRIG_def ECHO_def

subsection \<open>Rounding\<close>

declare binary_exponent.simps [simp del]

lemma pow2_plus1: "(2::real) powi (k + 1) = 2 * 2 powi k"
  by (simp add: power_int_add)

lemma pow2_minus1: "(2::real) powi (k - 1) = 2 powi k / 2"
  by (simp add: power_int_diff)

lemma round_half_even_upper: "of_int (round_half_even x) \<le> x + 1 / 2"
  unfolding round_half_even_def Let_def by (auto; linarith)

lemma round_half_even_lower: "x - 1 / 2 \<le> of_int (round_half_even x)"
  unfolding round_half_even_def Let_def by (auto; linarith)

lemma round_half_even_of_int [simp]: "round_half_even (of_int n) = n"
  by (simp add: round_half_even_def)

lemma round_half_even_mono:
  assumes "x \<le> y"
  shows "round_half_even x \<le> round_half_even y"
proof (cases "x = y")
  case True
  then show ?thesis by simp
next
  case False
  then have "x < y" using assms by simp
  then have "real_of_int (round_half_even x) < of_int (round_half_even y) + 1"
    using round_half_even_upper [of x] round_half_even_lower [of y] by linarith
  then show ?thesis by linarith
qed

lemma binary_exponent_bounds:
  "0 < x \<Longrightarrow> 2 powi (binary_exponent x) \<le> x \<and> x < 2 powi (binary_exponent x + 1)"
proof (induction x rule: binary_exponent.induct)
  case (1 x)
  show ?case
  proof (cases "2 \<le> x")
    case True
    then have e: "binary_exponent x = binary_exponent (x / 2) + 1"
      using "1.prems" by (subst binary_exponent.simps) simp
    have "2 powi (binary_exponent (x / 2)) \<le> x / 2 \<and> x / 2 < 2 powi (binary_exponent (x / 2) + 1)"
      using "1.IH"(1) "1.prems" True by simp
    then show ?thesis
      unfolding e pow2_plus1 by simp
  next
    case False
    show ?thesis
    proof (cases "x < 1")
      case True
      then have e: "binary_exponent x = binary_exponent (2 * x) - 1"
        using "1.prems" False by (subst binary_exponent.simps) simp
      have "2 powi (binary_exponent (2 * x)) \<le> 2 * x \<and> 2 * x < 2 powi (binary_exponent (2 * x) + 1)"
        using "1.IH"(2) "1.prems" False True by simp
      then show ?thesis
        unfolding e pow2_plus1 by (simp add: pow2_minus1)
    next
      case False
      then have "binary_exponent x = 0"
        using "1.prems" \<open>\<not> 2 \<le> x\<close> by (subst binary_exponent.simps) simp
      then show ?thesis using False \<open>\<not> 2 \<le> x\<close> by simp
    qed
  qed
qed

lemma binary_exponent_mono:
  assumes "0 < x" "x \<le> y"
  shows "binary_exponent x \<le> binary_exponent y"
proof -
  have "(2::real) powi (binary_exponent x) < 2 powi (binary_exponent y + 1)"
    using binary_exponent_bounds [of x] binary_exponent_bounds [of y] assms by linarith
  then have "\<not> binary_exponent y + 1 \<le> binary_exponent x"
    using power_int_increasing [of "binary_exponent y + 1" "binary_exponent x" "2::real"]
    by auto
  then show ?thesis by simp
qed



lemma round_half_even_power [simp]: "round_half_even (2 ^ n) = 2 ^ n"
  using round_half_even_of_int [of "2 ^ n"] by simp

lemma round_half_even_0 [simp]: "round_half_even 0 = 0"
  using round_half_even_of_int [of 0] by simp

lemma fp_round_0 [simp]: "fp_round p emin 0 = 0"
  by (simp add: fp_round_def)

lemma fp_round_pos_unfold:
  assumes "0 < x"
  shows "fp_round p emin x =
    of_int (round_half_even (x / 2 powi (max emin (binary_exponent x) - (int p - 1))))
      * 2 powi (max emin (binary_exponent x) - (int p - 1))"
  using assms by (simp add: fp_round_def Let_def)

lemma fp_round_nonneg:
  assumes "0 \<le> x"
  shows "0 \<le> fp_round p emin x"
proof -
  define q :: real where "q = 2 powi (max emin (binary_exponent \<bar>x\<bar>) - (int p - 1))"
  have q: "0 < q" by (simp add: q_def)
  have "0 \<le> x / q" using assms q by simp
  then have "round_half_even 0 \<le> round_half_even (x / q)" by (rule round_half_even_mono)
  then have "0 \<le> real_of_int (round_half_even (x / q)) * q" using q by simp
  then show ?thesis by (simp add: fp_round_def Let_def q_def)
qed

lemma fp_round_mono:
  assumes "0 \<le> x" "x \<le> y" "0 < p"
  shows "fp_round p emin x \<le> fp_round p emin y"
proof (cases "x = 0")
  case True
  then show ?thesis using fp_round_nonneg [of y p emin] assms by simp
next
  case False
  then have x: "0 < x" and y: "0 < y" using assms by simp_all
  define ex where "ex = max emin (binary_exponent x)"
  define ey where "ey = max emin (binary_exponent y)"
  define qx :: real where "qx = 2 powi (ex - (int p - 1))"
  define qy :: real where "qy = 2 powi (ey - (int p - 1))"
  have qx: "0 < qx" and qy: "0 < qy" by (simp_all add: qx_def qy_def)
  have fx: "fp_round p emin x = of_int (round_half_even (x / qx)) * qx"
    using fp_round_pos_unfold [OF x] by (simp add: qx_def ex_def)
  have fy: "fp_round p emin y = of_int (round_half_even (y / qy)) * qy"
    using fp_round_pos_unfold [OF y] by (simp add: qy_def ey_def)
  have le: "ex \<le> ey"
    using binary_exponent_mono [OF x assms(2)] by (simp add: ex_def ey_def)
  show ?thesis
  proof (cases "ex = ey")
    case True
    then have "qx = qy" by (simp add: qx_def qy_def)
    moreover have "x / qy \<le> y / qy" using assms(2) qy by (simp add: divide_right_mono)
    then have "round_half_even (x / qy) \<le> round_half_even (y / qy)"
      by (rule round_half_even_mono)
    ultimately show ?thesis using qy by (simp add: fx fy)
  next
    case False
    then have lt: "ex + 1 \<le> ey" using le by simp
    then have ey: "ey = binary_exponent y" by (auto simp: ex_def ey_def)
    have "x < 2 powi (binary_exponent x + 1)" using binary_exponent_bounds [OF x] by simp
    also have "\<dots> \<le> 2 powi (ex + 1)"
      by (rule power_int_increasing) (simp_all add: ex_def)
    finally have xlt: "x < 2 powi (ex + 1)" .
    have yge: "2 powi ey \<le> y" using binary_exponent_bounds [OF y] ey by simp
    have px: "2 powi (ex + 1) / qx = of_int (2 ^ p)"
    proof -
      have "(2::real) powi (ex + 1) / qx = 2 powi ((ex + 1) - (ex - (int p - 1)))"
        unfolding qx_def by (subst power_int_diff) simp_all
      also have "\<dots> = 2 powi (int p)" by simp
      finally show ?thesis by simp
    qed
    have py: "2 powi ey / qy = of_int (2 ^ (p - 1))"
    proof -
      have "(2::real) powi ey / qy = 2 powi (ey - (ey - (int p - 1)))"
        unfolding qy_def by (subst power_int_diff) simp_all
      also have "\<dots> = 2 powi (int (p - 1))" using assms(3) by (simp add: of_nat_diff)
      finally show ?thesis by simp
    qed
    have "x / qx \<le> 2 powi (ex + 1) / qx" using xlt qx by (simp add: divide_right_mono)
    then have "round_half_even (x / qx) \<le> round_half_even (of_int (2 ^ p))"
      unfolding px by (rule round_half_even_mono)
    then have "real_of_int (round_half_even (x / qx)) \<le> 2 powi (ex + 1) / qx"
      unfolding px by simp
    then have a: "fp_round p emin x \<le> 2 powi (ex + 1)"
      using qx by (simp add: fx pos_le_divide_eq)
    have "2 powi ey / qy \<le> y / qy" using yge qy by (simp add: divide_right_mono)
    then have "round_half_even (of_int (2 ^ (p - 1))) \<le> round_half_even (y / qy)"
      unfolding py by (rule round_half_even_mono)
    then have "2 powi ey / qy \<le> real_of_int (round_half_even (y / qy))"
      unfolding py by simp
    then have b: "2 powi ey \<le> fp_round p emin y"
      using qy by (simp add: fy pos_divide_le_eq)
    have "(2::real) powi (ex + 1) \<le> 2 powi ey"
      using lt by (intro power_int_increasing) simp_all
    with a b show ?thesis by linarith
  qed
qed

lemma fp_round_rel_error:
  assumes "2 powi emin \<le> x"
  shows "\<bar>fp_round p emin x - x\<bar> \<le> x * 2 powi (- int p)"
proof -
  have x: "0 < x" using assms zero_less_power_int [of "2::real" emin] by linarith
  define e where "e = binary_exponent x"
  define q :: real where "q = 2 powi (e - (int p - 1))"
  have q: "0 < q" by (simp add: q_def)
  have b: "2 powi e \<le> x" "x < 2 powi (e + 1)"
    using binary_exponent_bounds [OF x] by (simp_all add: e_def)
  have "\<not> e + 1 \<le> emin"
    using power_int_increasing [of "e + 1" emin "2::real"] b assms by auto
  then have "max emin e = e" by simp
  then have f: "fp_round p emin x = of_int (round_half_even (x / q)) * q"
    using fp_round_pos_unfold [OF x, of p emin] by (simp add: q_def e_def)
  have "\<bar>real_of_int (round_half_even (x / q)) - x / q\<bar> \<le> 1 / 2"
    using round_half_even_upper [of "x / q"] round_half_even_lower [of "x / q"] by linarith
  then have "\<bar>real_of_int (round_half_even (x / q)) - x / q\<bar> * q \<le> 1 / 2 * q"
    using q by (intro mult_right_mono) simp_all
  moreover have "\<bar>real_of_int (round_half_even (x / q)) - x / q\<bar> * q
      = \<bar>(real_of_int (round_half_even (x / q)) - x / q) * q\<bar>"
    using q by (simp add: abs_mult)
  moreover have "(real_of_int (round_half_even (x / q)) - x / q) * q
      = real_of_int (round_half_even (x / q)) * q - x"
    using q by (simp add: field_simps)
  ultimately have "\<bar>fp_round p emin x - x\<bar> \<le> q / 2" by (simp add: f)
  also have "q / 2 = 2 powi e * 2 powi (- int p)"
  proof -
    have "q = 2 powi ((e - int p) + 1)" by (simp add: q_def algebra_simps)
    also have "\<dots> = 2 * 2 powi (e - int p)" by (rule pow2_plus1)
    also have "(2::real) powi (e - int p) = 2 powi e * 2 powi (- int p)"
      using power_int_add [of "2::real" e "- int p"] by simp
    finally show ?thesis by simp
  qed
  also have "\<dots> \<le> x * 2 powi (- int p)"
    using b(1) by (intro mult_right_mono) simp_all
  finally show ?thesis .
qed


lemma fp_round_between:
  assumes "2 powi emin \<le> x" "B * a \<le> x" "x \<le> B * b" "0 < p"
  shows "B * (a * (1 - 2 powi (- int p))) \<le> fp_round p emin x"
    and "fp_round p emin x \<le> B * (b * (1 + 2 powi (- int p)))"
proof -
  define u :: real where "u = 2 powi (- int p)"
  have u: "0 \<le> u" "u \<le> 1"
    using power_int_increasing [of "- int p" 0 "2::real"] by (simp_all add: u_def)
  have x: "0 < x" using assms(1) zero_less_power_int [of "2::real" emin] by linarith
  have e: "\<bar>fp_round p emin x - x\<bar> \<le> x * u"
    using fp_round_rel_error [OF assms(1), of p] by (simp add: u_def)
  have "B * a * (1 - u) \<le> x * (1 - u)"
    using assms(2) u by (intro mult_right_mono) simp_all
  also have "\<dots> \<le> fp_round p emin x" using e by (simp add: algebra_simps abs_le_iff)
  finally show "B * (a * (1 - 2 powi (- int p))) \<le> fp_round p emin x"
    by (simp add: u_def mult.assoc)
  have "fp_round p emin x \<le> x * (1 + u)" using e by (simp add: algebra_simps abs_le_iff)
  also have "\<dots> \<le> B * b * (1 + u)"
    using assms(3) u by (intro mult_right_mono) simp_all
  finally show "fp_round p emin x \<le> B * (b * (1 + 2 powi (- int p)))"
    by (simp add: u_def mult.assoc)
qed

lemma double_min_normal: "2 powi (- 1022) \<le> (1 / 1024 :: real)"
  using power_int_increasing [of "- 1022" "- 10" "2::real"] by simp

lemma float_min_normal: "2 powi (- 126) \<le> (1 / 1024 :: real)"
  using power_int_increasing [of "- 126" "- 10" "2::real"] by simp

subsection \<open>The conversions\<close>

text \<open>For evaluating the arithmetic on concrete numbers.\<close>

lemmas fp_eval = to_float_def to_double_def fp_round_def round_half_even_def
  binary_exponent.simps dmul_def ddiv_def


lemma speed_factor:
  "dmul (real_of_int SPEED_OF_SOUND) (to_double 0.0001) = 4943150951001857 / 2 ^ 57"
  by (simp add: SPEED_OF_SOUND_def dmul_def fp_eval)

lemma feet_divisor: "to_double 30.48 = 8579357290140795 / 2 ^ 48"
  by (simp add: fp_eval)

lemma calculateDistanceCM_unfold:
  "calculateDistanceCM T = to_float (to_double (to_double (T * (4943150951001857 / 2 ^ 57)) / 2))"
  unfolding calculateDistanceCM_def speed_factor by (simp only: dmul_def ddiv_def)

lemma calculateDistanceFoot_unfold:
  "calculateDistanceFoot T = to_float (to_double (to_double (to_double
     (T * (4943150951001857 / 2 ^ 57)) / (8579357290140795 / 2 ^ 48)) / 2))"
  unfolding calculateDistanceFoot_def speed_factor feet_divisor
  by (simp only: dmul_def ddiv_def)

lemma calculateDistanceCM_0: "calculateDistanceCM 0 = 0"
  by (simp add: calculateDistanceCM_unfold to_float_def to_double_def)

lemma calculateDistanceFoot_0: "calculateDistanceFoot 0 = 0"
  by (simp add: calculateDistanceFoot_unfold to_float_def to_double_def)

lemma calculateDistanceCM_nonneg: "0 \<le> t \<Longrightarrow> 0 \<le> calculateDistanceCM t"
  unfolding calculateDistanceCM_unfold to_float_def to_double_def
  by (intro fp_round_nonneg divide_nonneg_nonneg mult_nonneg_nonneg) simp_all

lemma calculateDistanceCM_mono:
  assumes "0 \<le> T1" "T1 \<le> T2"
  shows "calculateDistanceCM T1 \<le> calculateDistanceCM T2"
  unfolding calculateDistanceCM_unfold to_float_def to_double_def
  using assms
  by (intro fp_round_mono fp_round_nonneg divide_right_mono divide_nonneg_nonneg
      mult_right_mono mult_nonneg_nonneg) simp_all

lemma calculateDistanceCM_bounds:
  assumes "1 \<le> T"
  shows "T * (343 / 20000) * (1 - 1 / 2 ^ 23) \<le> calculateDistanceCM T"
    and "calculateDistanceCM T \<le> T * (343 / 20000) * (1 + 1 / 2 ^ 23)"
proof -
  define B where "B = T * (343 / 20000)"
  define x1 where "x1 = T * (4943150951001857 / 2 ^ 57)"
  define m where "m = to_double x1"
  define h where "h = to_double (m / 2)"
  have B: "343 / 20000 \<le> B" using assms by (simp add: B_def)
  have x1: "B * 2 \<le> x1" "x1 \<le> B * (2 * (1 + 1 / 2 ^ 52))"
    using assms by (simp_all add: B_def x1_def)
  have n1: "2 powi (- 1022) \<le> x1" using x1(1) B double_min_normal by linarith
  have m: "B * (2 * (1 - 2 powi (- int 53))) \<le> m"
      "m \<le> B * (2 * (1 + 1 / 2 ^ 52) * (1 + 2 powi (- int 53)))"
    unfolding m_def to_double_def
    using fp_round_between [OF n1 x1, of 53] by simp_all
  have m2: "B * (1 - 1 / 2 ^ 53) \<le> m / 2" "m / 2 \<le> B * ((1 + 1 / 2 ^ 52) * (1 + 1 / 2 ^ 53))"
    using m by simp_all
  have "B * (1 - 1 / 2 ^ 53) \<ge> 1 / 1024"
  proof -
    have "(343 / 20000) * (1 - 1 / 2 ^ 53) \<le> B * (1 - 1 / 2 ^ 53)"
      using B by (intro mult_right_mono) simp_all
    then show ?thesis by simp
  qed
  then have lo: "1 / 1024 \<le> m / 2" using m2(1) by linarith
  have n2: "2 powi (- 1022) \<le> m / 2" using lo double_min_normal by linarith
  have h: "B * ((1 - 1 / 2 ^ 53) * (1 - 2 powi (- int 53))) \<le> h"
      "h \<le> B * ((1 + 1 / 2 ^ 52) * (1 + 1 / 2 ^ 53) * (1 + 2 powi (- int 53)))"
    unfolding h_def to_double_def
    using fp_round_between [OF n2 m2, of 53] by simp_all
  have "B * ((1 - 1 / 2 ^ 53) * (1 - 1 / 2 ^ 53)) \<ge> 1 / 1024"
  proof -
    have "(343 / 20000) * ((1 - 1 / 2 ^ 53) * (1 - 1 / 2 ^ 53))
        \<le> B * ((1 - 1 / 2 ^ 53) * (1 - 1 / 2 ^ 53))"
      using B by (intro mult_right_mono) simp_all
    then show ?thesis by simp
  qed
  then have n3: "2 powi (- 126) \<le> h" using h(1) float_min_normal by simp
  have f: "B * ((1 - 1 / 2 ^ 53) * (1 - 2 powi (- int 53)) * (1 - 2 powi (- int 24)))
        \<le> to_float h"
      "to_float h \<le> B * ((1 + 1 / 2 ^ 52) * (1 + 1 / 2 ^ 53) * (1 + 2 powi (- int 53))
        * (1 + 2 powi (- int 24)))"
    unfolding to_float_def
    using fp_round_between [OF n3 h, of 24] by simp_all
  have cm: "calculateDistanceCM T = to_float h"
    by (simp add: calculateDistanceCM_unfold h_def m_def x1_def)
  have B0: "0 \<le> B" using B by simp
  have "B * (1 - 1 / 2 ^ 23)
      \<le> B * ((1 - 1 / 2 ^ 53) * (1 - 2 powi (- int 53)) * (1 - 2 powi (- int 24)))"
    using B0 by (intro mult_left_mono) simp_all
  then show "T * (343 / 20000) * (1 - 1 / 2 ^ 23) \<le> calculateDistanceCM T"
    using f(1) unfolding cm B_def by linarith
  have "B * ((1 + 1 / 2 ^ 52) * (1 + 1 / 2 ^ 53) * (1 + 2 powi (- int 53))
        * (1 + 2 powi (- int 24))) \<le> B * (1 + 1 / 2 ^ 23)"
    using B0 by (intro mult_left_mono) simp_all
  then show "calculateDistanceCM T \<le> T * (343 / 20000) * (1 + 1 / 2 ^ 23)"
    using f(2) unfolding cm B_def by linarith
qed

lemma calculateDistanceFoot_bounds:
  assumes "1 \<le> T"
  shows "T * (343 / 609600) * (1 - 1 / 2 ^ 23) \<le> calculateDistanceFoot T"
    and "calculateDistanceFoot T \<le> T * (343 / 609600) * (1 + 1 / 2 ^ 23)"
proof -
  define B where "B = T * (343 / 609600)"
  define d :: real where "d = 8579357290140795 / 2 ^ 48"
  define x1 where "x1 = T * (4943150951001857 / 2 ^ 57)"
  define m where "m = to_double x1"
  define g where "g = to_double (m / d)"
  define h where "h = to_double (g / 2)"
  have B: "343 / 609600 \<le> B" using assms by (simp add: B_def)
  have B0: "0 \<le> B" using B by simp
  have d: "0 < d" by (simp add: d_def)
  have x1: "B * (1524 / 25) \<le> x1" "x1 \<le> B * (1524 / 25 * (1 + 1 / 2 ^ 52))"
    using assms by (simp_all add: B_def x1_def)
  have "1 / 1024 \<le> B * (1524 / 25)"
    using mult_right_mono [OF B, of "1524 / 25"] by simp
  then have n1: "2 powi (- 1022) \<le> x1" using x1(1) double_min_normal by linarith
  have m: "B * (1524 / 25 * (1 - 2 powi (- int 53))) \<le> m"
      "m \<le> B * (1524 / 25 * (1 + 1 / 2 ^ 52) * (1 + 2 powi (- int 53)))"
    unfolding m_def to_double_def
    using fp_round_between [OF n1 x1, of 53] by simp_all
  have md: "B * (2 * (1 - 1 / 2 ^ 51)) \<le> m / d" "m / d \<le> B * (2 * (1 + 1 / 2 ^ 51))"
  proof -
    have "B * (2 * (1 - 1 / 2 ^ 51)) \<le> B * (1524 / 25 * (1 - 2 powi (- int 53)) / d)"
      using B0 by (intro mult_left_mono) (simp_all add: d_def)
    also have "\<dots> = B * (1524 / 25 * (1 - 2 powi (- int 53))) / d" by simp
    also have "\<dots> \<le> m / d" using m(1) d by (intro divide_right_mono) simp_all
    finally show "B * (2 * (1 - 1 / 2 ^ 51)) \<le> m / d" .
    have "m / d \<le> B * (1524 / 25 * (1 + 1 / 2 ^ 52) * (1 + 2 powi (- int 53))) / d"
      using m(2) d by (intro divide_right_mono) simp_all
    also have "\<dots> = B * (1524 / 25 * (1 + 1 / 2 ^ 52) * (1 + 2 powi (- int 53)) / d)"
      by simp
    also have "\<dots> \<le> B * (2 * (1 + 1 / 2 ^ 51))"
      using B0 by (intro mult_left_mono) (simp_all add: d_def)
    finally show "m / d \<le> B * (2 * (1 + 1 / 2 ^ 51))" .
  qed
  have "1 / 1024 \<le> B * (2 * (1 - 1 / 2 ^ 51))"
    using mult_right_mono [OF B, of "2 * (1 - 1 / 2 ^ 51)"] by simp
  then have n2: "2 powi (- 1022) \<le> m / d" using md(1) double_min_normal by linarith
  have g: "B * (2 * (1 - 1 / 2 ^ 51) * (1 - 2 powi (- int 53))) \<le> g"
      "g \<le> B * (2 * (1 + 1 / 2 ^ 51) * (1 + 2 powi (- int 53)))"
    unfolding g_def to_double_def
    using fp_round_between [OF n2 md, of 53] by simp_all
  have g2: "B * ((1 - 1 / 2 ^ 51) * (1 - 1 / 2 ^ 53)) \<le> g / 2"
      "g / 2 \<le> B * ((1 + 1 / 2 ^ 51) * (1 + 1 / 2 ^ 53))"
    using g by simp_all
  have "1 / 2048 \<le> B * ((1 - 1 / 2 ^ 51) * (1 - 1 / 2 ^ 53))"
    using mult_right_mono [OF B, of "(1 - 1 / 2 ^ 51) * (1 - 1 / 2 ^ 53)"] by simp
  then have lo: "1 / 2048 \<le> g / 2" using g2(1) by linarith
  have "2 powi (- 1022) \<le> (1 / 2048 :: real)"
    using power_int_increasing [of "- 1022" "- 11" "2::real"] by simp
  then have n3: "2 powi (- 1022) \<le> g / 2" using lo by linarith
  have h: "B * ((1 - 1 / 2 ^ 51) * (1 - 1 / 2 ^ 53) * (1 - 2 powi (- int 53))) \<le> h"
      "h \<le> B * ((1 + 1 / 2 ^ 51) * (1 + 1 / 2 ^ 53) * (1 + 2 powi (- int 53)))"
    unfolding h_def to_double_def
    using fp_round_between [OF n3 g2, of 53] by simp_all
  have "1 / 2048 \<le> B * ((1 - 1 / 2 ^ 51) * (1 - 1 / 2 ^ 53) * (1 - 2 powi (- int 53)))"
    using mult_right_mono [OF B, of "(1 - 1 / 2 ^ 51) * (1 - 1 / 2 ^ 53) * (1 - 1 / 2 ^ 53)"]
    by simp
  then have lo': "1 / 2048 \<le> h" using h(1) by linarith
  have "2 powi (- 126) \<le> (1 / 2048 :: real)"
    using power_int_increasing [of "- 126" "- 11" "2::real"] by simp
  then have n4: "2 powi (- 126) \<le> h" using lo' by linarith
  have f: "B * ((1 - 1 / 2 ^ 51) * (1 - 1 / 2 ^ 53) * (1 - 2 powi (- int 53))
        * (1 - 2 powi (- int 24))) \<le> to_float h"
      "to_float h \<le> B * ((1 + 1 / 2 ^ 51) * (1 + 1 / 2 ^ 53) * (1 + 2 powi (- int 53))
        * (1 + 2 powi (- int 24)))"
    unfolding to_float_def
    using fp_round_between [OF n4 h, of 24] by simp_all
  have ft: "calculateDistanceFoot T = to_float h"
    by (simp add: calculateDistanceFoot_unfold h_def g_def m_def x1_def d_def)
  have "B * (1 - 1 / 2 ^ 23)
      \<le> B * ((1 - 1 / 2 ^ 51) * (1 - 1 / 2 ^ 53) * (1 - 2 powi (- int 53))
        * (1 - 2 powi (- int 24)))"
    using B0 by (intro mult_left_mono) simp_all
  then show "T * (343 / 609600) * (1 - 1 / 2 ^ 23) \<le> calculateDistanceFoot T"
    using f(1) unfolding ft B_def by linarith
  have "B * ((1 + 1 / 2 ^ 51) * (1 + 1 / 2 ^ 53) * (1 + 2 powi (- int 53))
        * (1 + 2 powi (- int 24))) \<le> B * (1 + 1 / 2 ^ 23)"
    using B0 by (intro mult_left_mono) simp_all
  then show "calculateDistanceFoot T \<le> T * (343 / 609600) * (1 + 1 / 2 ^ 23)"
    using f(2) unfolding ft B_def by linarith
qed

lemma calculateDistanceCM_strict:
  fixes n1 n2 :: nat
  assumes "n1 < n2" "n2 \<le> 2 ^ 22"
  shows "calculateDistanceCM (real n1) < calculateDistanceCM (real n2)"
proof -
  have n2: "1 \<le> real n2" using assms(1) by simp
  have "real n2 \<le> real (2 ^ 22)" using assms(2) by (simp only: of_nat_le_iff)
  then have r2: "real n2 \<le> 2 ^ 22" by simp
  have "real (Suc n1) \<le> real n2" using assms(1) by (simp only: of_nat_le_iff Suc_le_eq)
  then have r1: "real n1 + 1 \<le> real n2" by simp
  have lo: "real n2 * (343 / 20000) * (1 - 1 / 2 ^ 23) \<le> calculateDistanceCM (real n2)"
    by (rule calculateDistanceCM_bounds(1) [OF n2])
  show ?thesis
  proof (cases "n1 = 0")
    case True
    have "0 < real n2 * (343 / 20000) * (1 - 1 / 2 ^ 23)" using n2 by simp
    then show ?thesis using lo True by (simp add: calculateDistanceCM_0)
  next
    case False
    then have n1: "1 \<le> real n1" by simp
    have hi: "calculateDistanceCM (real n1) \<le> real n1 * (343 / 20000) * (1 + 1 / 2 ^ 23)"
      by (rule calculateDistanceCM_bounds(2) [OF n1])
    have "real n1 * (1 + 1 / 2 ^ 23) < real n2 * (1 - 1 / 2 ^ 23)"
      using r1 r2 by simp
    then have "real n1 * (1 + 1 / 2 ^ 23) * (343 / 20000)
        < real n2 * (1 - 1 / 2 ^ 23) * (343 / 20000)"
      by (intro mult_strict_right_mono) simp_all
    then show ?thesis using lo hi by (simp add: mult.commute mult.left_commute)
  qed
qed

lemma cm_1000: "calculateDistanceCM 1000 = 8991539 / 524288"
  by (simp add: calculateDistanceCM_unfold fp_eval)

lemma cm_6000: "calculateDistanceCM 6000 = 13487309 / 131072"
  by (simp add: calculateDistanceCM_unfold fp_eval)

lemma foot_1000: "calculateDistanceFoot 1000 = 147499 / 262144"
  by (simp add: calculateDistanceFoot_unfold fp_eval)

lemma cm_15285364: "calculateDistanceCM 15285364 = 262144"
  by (simp add: calculateDistanceCM_unfold fp_eval)

lemma cm_15285365: "calculateDistanceCM 15285365 = 262144"
  by (simp add: calculateDistanceCM_unfold fp_eval)

subsection \<open>Unfolding the primitives\<close>

lemmas core_defs = emit_def lcd_begin_def lcd_print_def lcd_clear_def Serial_begin_def
  Serial_println_def pinMode_def digitalWrite_def delay_def

subsection \<open>The conversion at \<open>delay\<close>\<close>

lemma truncate_nonneg: "0 \<le> d \<Longrightarrow> truncate d = \<lfloor>d\<rfloor>"
  by (simp add: truncate_def)

lemma double_to_ulong_floor:
  "0 \<le> d \<Longrightarrow> d < 2 ^ 32 \<Longrightarrow> double_to_ulong d = Some (word_of_int \<lfloor>d\<rfloor>)"
  by (simp add: double_to_ulong_def truncate_nonneg floor_less_iff)

lemma unat_floor:
  fixes d :: real
  assumes "0 \<le> d" "d < 2 ^ 32"
  shows "unat (word_of_int \<lfloor>d\<rfloor> :: 32 word) = nat \<lfloor>d\<rfloor>"
proof -
  have "0 \<le> \<lfloor>d\<rfloor>" "\<lfloor>d\<rfloor> < 2 ^ 32"
    using assms by (simp_all add: floor_less_iff)
  then show ?thesis
    by (simp add: unat_eq_nat_uint uint_word_of_int)
qed

subsection \<open>What a blink and a measurement do to the state\<close>

lemma blinkLED_Some:
  assumes "0 \<le> d" "d < 2 ^ 32"
  shows "blinkLED d s = Some (s\<lparr>levels := (levels s)(LED := LOW),
           blocked_ms := blocked_ms s + 2 * nat \<lfloor>d\<rfloor>,
           trace := trace s @ [DigitalWrite LED LOW, DigitalWrite LED HIGH,
             Delay (word_of_int \<lfloor>d\<rfloor>), DigitalWrite LED LOW, Delay (word_of_int \<lfloor>d\<rfloor>)]\<rparr>)"
  using assms
  by (simp add: blinkLED_def delay_double_def double_to_ulong_floor unat_floor core_defs)

lemma blinkLED_SomeD:
  assumes "blinkLED d s = Some s'"
  shows "\<exists>w. double_to_ulong d = Some w \<and>
     s' = s\<lparr>levels := (levels s)(LED := LOW), blocked_ms := blocked_ms s + 2 * unat w,
       trace := trace s @ [DigitalWrite LED LOW, DigitalWrite LED HIGH, Delay w,
         DigitalWrite LED LOW, Delay w]\<rparr>"
  using assms
  by (cases "double_to_ulong d") (auto simp: blinkLED_def delay_double_def core_defs)

lemma blinkLED_limit: "blinkLED d s = Some s' \<Longrightarrow> limit s' = limit s"
  by (auto dest: blinkLED_SomeD)

lemma getDistance_eq:
  "getDistance e s = (calculateDistanceCM (real (unat (pulse_width e))),
     s\<lparr>levels := (levels s)(TRIG := LOW), blocked_ms := blocked_ms s + 20,
       trace := trace s @ [DigitalWrite TRIG LOW, Delay 10, DigitalWrite TRIG HIGH, Delay 10,
         DigitalWrite TRIG LOW, PulseIn ECHO HIGH]\<rparr>)"
  by (simp add: getDistance_def getEchoTime_def pulseIn_def sendTrigPulse_def core_defs)

lemma distance_nonneg: "0 \<le> fst (getDistance e s)"
  unfolding getDistance_eq fst_conv
  by (rule calculateDistanceCM_nonneg) (rule of_nat_0_le_iff)

subsection \<open>One cycle\<close>

lemma loop_from_below:
  assumes "0 \<le> d" "d < 50" "limit s = 50"
  shows "loop_from d s = Some (s\<lparr>levels := (levels s)(LED := LOW),
           blocked_ms := blocked_ms s + 2 * nat \<lfloor>d\<rfloor> + 200,
           trace := trace s @ [LcdPrint [Number d, Literal ''cm''], SerialPrintln d,
             DigitalWrite LED LOW, DigitalWrite LED HIGH, Delay (word_of_int \<lfloor>d\<rfloor>),
             DigitalWrite LED LOW, Delay (word_of_int \<lfloor>d\<rfloor>), Delay 200, LcdClear]\<rparr>)"
proof -
  have "d < 2 ^ 32" using assms(2) by simp
  with assms show ?thesis
    by (simp add: loop_from_def lcdDisplayMessage_def blinkLED_Some core_defs)
qed

lemma loop_from_above:
  assumes "\<not> d < 50" "limit s = 50"
  shows "loop_from d s = Some (s\<lparr>blocked_ms := blocked_ms s + 200,
           trace := trace s @ [LcdPrint [Number d, Literal ''cm''], SerialPrintln d,
             Delay 200, LcdClear]\<rparr>)"
  using assms by (simp add: loop_from_def lcdDisplayMessage_def core_defs)

lemma loop_from_limit: "loop_from d s = Some s' \<Longrightarrow> limit s' = limit s"
  by (auto simp: loop_from_def lcdDisplayMessage_def blinkLED_def delay_double_def core_defs
      Let_def split: if_splits bind_splits)

lemma loop_limit: "loop e s = Some s' \<Longrightarrow> limit s' = limit s"
  by (auto simp: loop_def getDistance_eq dest: loop_from_limit)

lemma loop_Some:
  assumes "limit s = 50"
  shows "\<exists>s'. loop e s = Some s'"
proof -
  obtain d s1 where g: "getDistance e s = (d, s1)" by (cases "getDistance e s")
  have "0 \<le> d" using distance_nonneg [of e s] g by simp
  moreover have "limit s1 = 50" using g assms by (auto simp: getDistance_eq)
  ultimately show ?thesis
    using g loop_from_below [of d s1] loop_from_above [of d s1]
    by (cases "d < 50") (simp_all add: loop_def)
qed

lemma loop_LED:
  assumes "loop e s = Some s'" "limit s = 50" "levels s LED = LOW"
  shows "levels s' LED = LOW"
proof -
  obtain d s1 where g: "getDistance e s = (d, s1)" by (cases "getDistance e s")
  have d: "0 \<le> d" using distance_nonneg [of e s] g by simp
  have s1: "limit s1 = 50" "levels s1 LED = LOW"
    using g assms by (auto simp: getDistance_eq pin_defs)
  show ?thesis
    using g assms(1) d s1 loop_from_below [of d s1] loop_from_above [of d s1]
    by (cases "d < 50") (auto simp: loop_def)
qed

lemma loop_run:
  assumes "limit s = 50" and "d = fst (getDistance e s)"
  shows "\<exists>s'. loop e s = Some s' \<and> limit s' = 50 \<and>
     since s s' =
       [DigitalWrite TRIG LOW, Delay 10, DigitalWrite TRIG HIGH, Delay 10,
        DigitalWrite TRIG LOW, PulseIn ECHO HIGH,
        LcdPrint [Number d, Literal ''cm''], SerialPrintln d]
       @ (if d < 50
          then [DigitalWrite LED LOW, DigitalWrite LED HIGH, Delay (word_of_int \<lfloor>d\<rfloor>),
                DigitalWrite LED LOW, Delay (word_of_int \<lfloor>d\<rfloor>)]
          else [])
       @ [Delay 200, LcdClear]"
proof -
  obtain s1 where g: "getDistance e s = (d, s1)"
    using assms(2) by (cases "getDistance e s") simp
  have d: "0 \<le> d" using distance_nonneg [of e s] g by simp
  have s1: "limit s1 = 50" "trace s1 = trace s @ [DigitalWrite TRIG LOW, Delay 10,
      DigitalWrite TRIG HIGH, Delay 10, DigitalWrite TRIG LOW, PulseIn ECHO HIGH]"
    using g assms by (auto simp: getDistance_eq)
  show ?thesis
    using g d s1 loop_from_below [of d s1] loop_from_above [of d s1]
    by (cases "d < 50") (simp_all add: loop_def since_def)
qed

subsection \<open>Runs: the limit stays 50 and the indicator ends low\<close>

lemma setup_limit: "limit (sketch_setup power_on) = 50"
  by (simp add: sketch_setup_def power_on_def core_defs)

lemma cycles_invariant:
  assumes "limit s = 50" "levels s LED = LOW"
  shows "\<exists>s'. cycles es s = Some s' \<and> limit s' = 50 \<and> levels s' LED = LOW"
  using assms
proof (induction es arbitrary: s)
  case Nil
  then show ?case by simp
next
  case (Cons e es)
  obtain s1 where s1: "loop e s = Some s1" using loop_Some [OF Cons.prems(1)] by blast
  have "limit s1 = 50" using loop_limit [OF s1] Cons.prems by simp
  moreover have "levels s1 LED = LOW" using loop_LED [OF s1] Cons.prems by simp
  ultimately show ?case using Cons.IH [of s1] s1 by simp
qed

lemma boot_invariant: "\<exists>s. boot es = Some s \<and> limit s = 50 \<and> levels s LED = LOW"
  unfolding boot_def
  by (rule cycles_invariant) (simp_all add: sketch_setup_def power_on_def core_defs)

lemma cycles_snoc: "cycles (es @ [e]) s = Option.bind (cycles es s) (loop e)"
  by (induction es arbitrary: s) (auto split: bind_splits)

lemma boot_snoc: "boot (es @ [e]) = Option.bind (boot es) (loop e)"
  by (simp add: boot_def cycles_snoc)

text \<open>For evaluating the sketch on concrete inputs.\<close>

lemmas sketch_defs = boot_def loop_def loop_from_def getDistance_def getEchoTime_def
  pulseIn_def sendTrigPulse_def lcdDisplayMessage_def blinkLED_def delay_double_def
  double_to_ulong_def truncate_def sketch_setup_def power_on_def

section \<open>Distance conversion\<close>

text \<open>
  C1, as the sketch has it. For every echo duration \<open>T\<close> from 1 to \<open>2\<^sup>3\<^sup>2\<close> microseconds
  the centimetre conversion returns \<open>(T * 0.0343) / 2\<close> and the feet conversion returns
  \<open>(T * 0.0343 / 30.48) / 2\<close>, each as rounded by the floating-point arithmetic of the
  sketch: the value returned differs from the exact one by at most the exact one
  divided by \<open>2\<^sup>2\<^sup>3\<close>. Both conversions map a zero duration to exactly zero.
\<close>

theorem conversion_within_rounding:
  assumes "1 \<le> T" and "T \<le> 2 ^ 32"
  shows "\<bar>calculateDistanceCM T - (T * 0.0343) / 2\<bar> \<le> (T * 0.0343) / 2 / 2 ^ 23
   \<and> \<bar>calculateDistanceFoot T - (T * 0.0343 / 30.48) / 2\<bar>
       \<le> (T * 0.0343 / 30.48) / 2 / 2 ^ 23
   \<and> calculateDistanceCM 0 = 0
   \<and> calculateDistanceFoot 0 = 0"
proof -
  have rel: "\<bar>y - B\<bar> \<le> B / 2 ^ 23"
    if "B * (1 - 1 / 2 ^ 23) \<le> y" "y \<le> B * (1 + 1 / 2 ^ 23)" for y B :: real
  proof -
    have "B - B / 2 ^ 23 \<le> y" using that(1) by (simp add: right_diff_distrib)
    moreover have "y \<le> B + B / 2 ^ 23" using that(2) by (simp add: distrib_left)
    ultimately show ?thesis unfolding abs_le_iff by (simp add: algebra_simps)
  qed
  have cm: "\<bar>calculateDistanceCM T - T * (343 / 20000)\<bar> \<le> T * (343 / 20000) / 2 ^ 23"
    by (rule rel [OF calculateDistanceCM_bounds [OF assms(1)]])
  have ft: "\<bar>calculateDistanceFoot T - T * (343 / 609600)\<bar> \<le> T * (343 / 609600) / 2 ^ 23"
    by (rule rel [OF calculateDistanceFoot_bounds [OF assms(1)]])
  have e: "(T * 0.0343) / 2 = T * (343 / 20000)"
    "(T * 0.0343 / 30.48) / 2 = T * (343 / 609600)"
    by simp_all
  show ?thesis
    unfolding e using cm ft calculateDistanceCM_0 calculateDistanceFoot_0 by blast
qed

theorem conversion_within_rounding_witness:
  "(1::real) \<le> 1000 \<and> (1000::real) \<le> 2 ^ 32
   \<and> \<bar>calculateDistanceCM 1000 - 17.15\<bar> \<le> 17.15 / 2 ^ 23
   \<and> \<bar>calculateDistanceFoot 1000 - 1715 / 3048\<bar> \<le> 1715 / 3048 / 2 ^ 23"
proof -
  have h1: "(1::real) \<le> 1000" and h2: "(1000::real) \<le> 2 ^ 32" by simp_all
  show ?thesis
    using conversion_within_rounding [OF h1 h2] by simp
qed

text \<open>
  C1, as stated (the value returned is exactly \<open>(T * 0.0343) / 2\<close>, respectively
  \<open>(T * 0.0343 / 30.48) / 2\<close>), fails at \<open>T = 1000\<close>: the centimetre conversion returns
  the float 8991539/524288, which is not 17.15, and the feet conversion returns the
  float 147499/262144, which is not 1715/3048.
\<close>

theorem conversion_exact_counterexample:
  "calculateDistanceCM 1000 = 8991539 / 524288
   \<and> calculateDistanceCM 1000 \<noteq> (1000 * 0.0343) / 2
   \<and> calculateDistanceFoot 1000 = 147499 / 262144
   \<and> calculateDistanceFoot 1000 \<noteq> (1000 * 0.0343 / 30.48) / 2"
  by (simp add: cm_1000 foot_1000)

text \<open>
  C7, as the sketch has it. The centimetre conversion is monotonic: for durations
  \<open>0 \<le> T1 \<le> T2 \<le> 2\<^sup>3\<^sup>2\<close> the distance of \<open>T1\<close> is at most the distance of \<open>T2\<close>. On
  whole numbers of microseconds up to \<open>2\<^sup>2\<^sup>2\<close> it is strictly monotonic.
\<close>

theorem cm_monotone:
  "(0 \<le> T1 \<and> T1 \<le> T2 \<and> T2 \<le> 2 ^ 32 \<longrightarrow> calculateDistanceCM T1 \<le> calculateDistanceCM T2)
   \<and> (n1 < n2 \<and> n2 \<le> 2 ^ 22 \<longrightarrow>
        calculateDistanceCM (real n1) < calculateDistanceCM (real n2))"
  using calculateDistanceCM_mono [of T1 T2] calculateDistanceCM_strict [of n1 n2]
  by blast

theorem cm_monotone_witness:
  "(0::real) \<le> 15285364 \<and> (15285364::real) \<le> 15285365 \<and> (15285365::real) \<le> 2 ^ 32
   \<and> calculateDistanceCM 15285364 \<le> calculateDistanceCM 15285365
   \<and> (1000::nat) < 6000 \<and> (6000::nat) \<le> 2 ^ 22
   \<and> calculateDistanceCM (real 1000) < calculateDistanceCM (real 6000)"
proof -
  have h: "(0::real) \<le> 15285364 \<and> (15285364::real) \<le> 15285365 \<and> (15285365::real) \<le> 2 ^ 32"
    by simp
  have k: "(1000::nat) < 6000 \<and> (6000::nat) \<le> 2 ^ 22" by simp
  have "calculateDistanceCM 15285364 \<le> calculateDistanceCM 15285365"
    using cm_monotone [of 15285364 15285365 0 0] h by blast
  moreover have "calculateDistanceCM (real 1000) < calculateDistanceCM (real 6000)"
    using cm_monotone [of 0 0 1000 6000] k by blast
  ultimately show ?thesis using h k by blast
qed

text \<open>
  C7, as stated (strictly monotonic for all durations), fails: the durations 15285364
  and 15285365 microseconds both give the distance 262144.
\<close>

theorem cm_strictly_monotone_counterexample:
  "(0::real) \<le> 15285364 \<and> (15285364::real) < 15285365
   \<and> calculateDistanceCM 15285364 = 262144
   \<and> calculateDistanceCM 15285365 = 262144
   \<and> \<not> calculateDistanceCM 15285364 < calculateDistanceCM 15285365"
  by (simp add: cm_15285364 cm_15285365)

section \<open>The indicator\<close>

text \<open>
  C6, as the sketch has it. For a duration \<open>d\<close> with \<open>0 \<le> d < 2\<^sup>3\<^sup>2\<close>, \<open>blinkLED d\<close>
  completes and does exactly this to the hardware: indicator low, indicator high, a
  delay of \<open>\<lfloor>d\<rfloor>\<close> ms, indicator low, a delay of \<open>\<lfloor>d\<rfloor>\<close> ms. The time spent in
  \<open>delay\<close> is \<open>2 * \<lfloor>d\<rfloor>\<close> ms, which is \<open>2 * d\<close> when \<open>d\<close> is a whole number.
\<close>

theorem blink_sequence:
  fixes d :: real
  assumes "0 \<le> d" and "d < 2 ^ 32"
  shows "\<exists>s'. blinkLED d s = Some s'
     \<and> since s s' = [DigitalWrite LED LOW, DigitalWrite LED HIGH, Delay (word_of_int \<lfloor>d\<rfloor>),
          DigitalWrite LED LOW, Delay (word_of_int \<lfloor>d\<rfloor>)]
     \<and> unat (word_of_int \<lfloor>d\<rfloor> :: 32 word) = nat \<lfloor>d\<rfloor>
     \<and> blocked_ms s' = blocked_ms s + 2 * nat \<lfloor>d\<rfloor>
     \<and> (d \<in> \<int> \<longrightarrow> real (blocked_ms s') = real (blocked_ms s) + 2 * d)"
proof -
  have "d \<in> \<int> \<longrightarrow> real (nat \<lfloor>d\<rfloor>) = d"
    using assms(1) by (auto simp: Ints_def)
  then show ?thesis
    using assms by (simp add: blinkLED_Some unat_floor since_def)
qed

theorem blink_sequence_witness:
  "(0::real) \<le> 17.15 \<and> (17.15::real) < 2 ^ 32
   \<and> (\<exists>s'. blinkLED 17.15 power_on = Some s'
     \<and> since power_on s' = [DigitalWrite LED LOW, DigitalWrite LED HIGH, Delay 17,
          DigitalWrite LED LOW, Delay 17]
     \<and> blocked_ms s' = blocked_ms power_on + 34)"
proof -
  have h1: "(0::real) \<le> 17.15" and h2: "(17.15::real) < 2 ^ 32" by simp_all
  show ?thesis
    using blink_sequence [OF h1 h2, of power_on] by simp
qed

text \<open>
  C6, as stated (hold for \<open>d\<close>, block for \<open>2 * d\<close>), fails at \<open>d = 17.15\<close>: both
  delays are 17 ms and the time spent in them is 34 ms, not 34.3 ms.
\<close>

theorem blink_blocks_twice_duration_counterexample:
  "map_option (delays \<circ> trace) (blinkLED 17.15 power_on) = Some [17, 17]
   \<and> map_option blocked_ms (blinkLED 17.15 power_on) = Some 34
   \<and> blocked_ms power_on = 0
   \<and> real 34 \<noteq> 2 * 17.15
   \<and> real (unat (17 :: 32 word)) \<noteq> 17.15"
  by (simp add: sketch_defs core_defs)

text \<open>
  C9. The half-period handed to \<open>delay\<close> is the distance truncated to an unsigned
  integer: for \<open>0 \<le> d < 2\<^sup>3\<^sup>2\<close> the conversion gives \<open>\<lfloor>d\<rfloor>\<close>, both delays of the blink
  are \<open>\<lfloor>d\<rfloor>\<close> ms, and for a distance that is not a whole number this is strictly less
  than \<open>d\<close>. In a cycle that blinks (distance below the limit of 50) the delays are
  \<open>\<lfloor>d\<rfloor>\<close>, \<open>\<lfloor>d\<rfloor>\<close> and the 200 ms of the cycle.
\<close>

theorem blink_half_period_truncated:
  fixes d :: real
  assumes "0 \<le> d" and "d < 2 ^ 32"
  shows "double_to_ulong d = Some (word_of_int \<lfloor>d\<rfloor>)
     \<and> unat (word_of_int \<lfloor>d\<rfloor> :: 32 word) = nat \<lfloor>d\<rfloor>
     \<and> map_option (\<lambda>s'. delays (since s s')) (blinkLED d s)
         = Some [word_of_int \<lfloor>d\<rfloor>, word_of_int \<lfloor>d\<rfloor>]
     \<and> (d \<notin> \<int> \<longrightarrow> real (nat \<lfloor>d\<rfloor>) < d)
     \<and> (d < 50 \<and> limit s = 50 \<longrightarrow>
          map_option (\<lambda>s'. delays (since s s')) (loop_from d s)
            = Some [word_of_int \<lfloor>d\<rfloor>, word_of_int \<lfloor>d\<rfloor>, 200])"
proof -
  have "real_of_int \<lfloor>d\<rfloor> < d" if "d \<notin> \<int>"
    using that by (metis Ints_of_int floor_correct less_eq_real_def)
  then have "d \<notin> \<int> \<longrightarrow> real (nat \<lfloor>d\<rfloor>) < d"
    using assms(1) by simp
  then show ?thesis
    using assms
    by (simp add: double_to_ulong_floor unat_floor blinkLED_Some loop_from_below since_def)
qed

theorem blink_half_period_truncated_witness:
  "(0::real) \<le> 17.15 \<and> (17.15::real) < 2 ^ 32
   \<and> double_to_ulong 17.15 = Some 17
   \<and> unat (17 :: 32 word) = 17
   \<and> map_option (\<lambda>s'. delays (since power_on s')) (blinkLED 17.15 power_on) = Some [17, 17]
   \<and> real 17 < 17.15
   \<and> map_option (\<lambda>s'. delays (since power_on s')) (loop_from 17.15 power_on)
        = Some [17, 17, 200]"
proof -
  have h1: "(0::real) \<le> 17.15" and h2: "(17.15::real) < 2 ^ 32" by simp_all
  have z: "(17.15::real) \<notin> \<int>"
  proof
    assume "(17.15::real) \<in> \<int>"
    then obtain k :: int where k: "(17.15::real) = of_int k" by (auto simp: Ints_def)
    then have "real_of_int (20 * k) = real_of_int 343" by simp
    then have "20 * k = 343" by (simp only: of_int_eq_iff)
    then show False by presburger
  qed
  have l: "limit power_on = 50" by (simp add: power_on_def)
  show ?thesis
    using blink_half_period_truncated [OF h1 h2, of power_on] z l by simp
qed

section \<open>The threshold\<close>



section \<open>Whole cycles\<close>

text \<open>
  C3, as the sketch has it. For an echo of 1000 microseconds the distance is the float
  8991539/524288, within a millionth of 17.15 cm and below 50, so the indicator
  blinks; the first cycle after reset does exactly what the log below says, and the
  half-period of the blink is 17 ms.
\<close>

theorem echo_1000_cycle:
  "fst (getDistance (Echo 1000) s) = 8991539 / 524288
   \<and> \<bar>8991539 / 524288 - 17.15\<bar> < (1 / 10 ^ 6 :: real)
   \<and> (8991539 / 524288 :: real) < 50
   \<and> map_option trace (boot [Echo 1000]) = Some
        [LcdBegin 16 1, PinMode TRIG OUTPUT, PinMode ECHO INPUT, SerialBegin 9600,
         DigitalWrite TRIG LOW, Delay 10, DigitalWrite TRIG HIGH, Delay 10,
         DigitalWrite TRIG LOW, PulseIn ECHO HIGH,
         LcdPrint [Number (8991539 / 524288), Literal ''cm''],
         SerialPrintln (8991539 / 524288),
         DigitalWrite LED LOW, DigitalWrite LED HIGH, Delay 17,
         DigitalWrite LED LOW, Delay 17, Delay 200, LcdClear]
   \<and> unat (17 :: 32 word) = 17"
  by (simp add: sketch_defs core_defs cm_1000)

text \<open>
  C3, as stated (a distance of 17.15 cm and a blink half-period of 17.15 ms), fails: the
  distance is 8991539/524288, and the delays of the first cycle with an echo of 1000
  microseconds are 10, 10, 17, 17 and 200 ms, none of which is 17.15 ms.
\<close>

theorem echo_1000_half_period_counterexample:
  "map_option (delays \<circ> trace) (boot [Echo 1000]) = Some [10, 10, 17, 17, 200]
   \<and> (17.15::real) \<notin> set (map (real \<circ> unat) [10, 10, 17, 17, 200 :: 32 word])
   \<and> fst (getDistance (Echo 1000) (sketch_setup power_on)) \<noteq> 17.15"
  by (simp add: sketch_defs core_defs cm_1000)

text \<open>
  C4. When no echo arrives, \<open>pulseIn\<close> returns 0, the echo time is the number 0 (the
  same value as for a pulse of width 0, not an error value), and the distance is 0.
  After any number of completed cycles, a cycle without echo completes as well; in it
  the indicator blinks with two delays of 0 ms.
\<close>

theorem no_echo_cycle:
  "pulse_width NoEcho = 0
   \<and> getEchoTime NoEcho s0 = getEchoTime (Echo 0) s0
   \<and> fst (getEchoTime NoEcho s0) = 0
   \<and> fst (getDistance NoEcho s0) = 0
   \<and> (\<exists>s s'. boot es = Some s \<and> loop NoEcho s = Some s' \<and> boot (es @ [NoEcho]) = Some s' \<and>
        since s s' =
          [DigitalWrite TRIG LOW, Delay 10, DigitalWrite TRIG HIGH, Delay 10,
           DigitalWrite TRIG LOW, PulseIn ECHO HIGH,
           LcdPrint [Number 0, Literal ''cm''], SerialPrintln 0,
           DigitalWrite LED LOW, DigitalWrite LED HIGH, Delay 0,
           DigitalWrite LED LOW, Delay 0, Delay 200, LcdClear])"
proof -
  have d0: "fst (getDistance NoEcho s) = 0" for s
    by (simp add: getDistance_eq calculateDistanceCM_0)
  obtain s where s: "boot es = Some s" "limit s = 50"
    using boot_invariant [of es] by blast
  obtain s' where s': "loop NoEcho s = Some s'" "since s s' =
          [DigitalWrite TRIG LOW, Delay 10, DigitalWrite TRIG HIGH, Delay 10,
           DigitalWrite TRIG LOW, PulseIn ECHO HIGH,
           LcdPrint [Number 0, Literal ''cm''], SerialPrintln 0,
           DigitalWrite LED LOW, DigitalWrite LED HIGH, Delay 0,
           DigitalWrite LED LOW, Delay 0, Delay 200, LcdClear]"
    using loop_run [OF s(2) d0 [symmetric]] by auto
  have "boot (es @ [NoEcho]) = Some s'"
    using s(1) s'(1) by (simp add: boot_snoc)
  with s(1) s' d0 [of s0] show ?thesis
    by (auto simp: getEchoTime_def pulseIn_def)
qed

text \<open>
  C5. After any number of cycles, with any echo behaviour, the next cycle completes, and
  it does exactly this, in this order: the trigger pulse (low, 10 ms, high, 10 ms, low),
  the timing of the echo, whose centimetre conversion is the distance of the cycle, the
  distance on the LCD followed by "cm", the distance on the serial line, the blink if
  the distance is below 50, the delay of 200 ms, and the clearing of the LCD. So no run
  reaches a state from which the next cycle cannot run.
\<close>

theorem cycle_order:
  "\<exists>s s'. boot es = Some s \<and> loop e s = Some s' \<and> boot (es @ [e]) = Some s' \<and>
     fst (getDistance e s) = calculateDistanceCM (real (unat (pulse_width e))) \<and>
     since s s' =
       [DigitalWrite TRIG LOW, Delay 10, DigitalWrite TRIG HIGH, Delay 10,
        DigitalWrite TRIG LOW, PulseIn ECHO HIGH,
        LcdPrint [Number (fst (getDistance e s)), Literal ''cm''],
        SerialPrintln (fst (getDistance e s))]
       @ (if fst (getDistance e s) < 50
          then [DigitalWrite LED LOW, DigitalWrite LED HIGH,
                Delay (word_of_int \<lfloor>fst (getDistance e s)\<rfloor>),
                DigitalWrite LED LOW,
                Delay (word_of_int \<lfloor>fst (getDistance e s)\<rfloor>)]
          else [])
       @ [Delay 200, LcdClear]"
proof -
  obtain s where s: "boot es = Some s" "limit s = 50"
    using boot_invariant [of es] by blast
  obtain s' where s': "loop e s = Some s'" "since s s' =
       [DigitalWrite TRIG LOW, Delay 10, DigitalWrite TRIG HIGH, Delay 10,
        DigitalWrite TRIG LOW, PulseIn ECHO HIGH,
        LcdPrint [Number (fst (getDistance e s)), Literal ''cm''],
        SerialPrintln (fst (getDistance e s))]
       @ (if fst (getDistance e s) < 50
          then [DigitalWrite LED LOW, DigitalWrite LED HIGH,
                Delay (word_of_int \<lfloor>fst (getDistance e s)\<rfloor>),
                DigitalWrite LED LOW,
                Delay (word_of_int \<lfloor>fst (getDistance e s)\<rfloor>)]
          else [])
       @ [Delay 200, LcdClear]"
    using loop_run [OF s(2) refl, of e] by blast
  have "boot (es @ [e]) = Some s'"
    using s(1) s'(1) by (simp add: boot_snoc)
  moreover have "fst (getDistance e s) = calculateDistanceCM (real (unat (pulse_width e)))"
    by (simp only: getDistance_eq fst_conv)
  ultimately show ?thesis using s(1) s' by blast
qed

section \<open>Invariants\<close>

text \<open>
  C8. The threshold \<open>limit\<close> is 50 after initialisation, no function of the sketch
  changes it, and it is 50 after any number of cycles.
\<close>

theorem limit_is_constant:
  "limit power_on = 50
   \<and> limit (sketch_setup s) = limit s
   \<and> limit (sendTrigPulse s) = limit s
   \<and> limit (snd (getEchoTime e s)) = limit s
   \<and> limit (snd (getDistance e s)) = limit s
   \<and> limit (lcdDisplayMessage text s) = limit s
   \<and> (\<forall>s'. blinkLED d s = Some s' \<longrightarrow> limit s' = limit s)
   \<and> (\<forall>s'. loop e s = Some s' \<longrightarrow> limit s' = limit s)
   \<and> (\<exists>s'. boot es = Some s' \<and> limit s' = 50)"
proof (intro conjI)
  show "limit power_on = 50" by (simp add: power_on_def)
  show "limit (sketch_setup s) = limit s" by (simp add: sketch_setup_def core_defs)
  show "limit (sendTrigPulse s) = limit s" by (simp add: sendTrigPulse_def core_defs)
  show "limit (snd (getEchoTime e s)) = limit s"
    by (simp add: getEchoTime_def pulseIn_def core_defs)
  show "limit (snd (getDistance e s)) = limit s" by (simp add: getDistance_eq)
  show "limit (lcdDisplayMessage text s) = limit s"
    by (simp add: lcdDisplayMessage_def core_defs)
  show "\<forall>s'. blinkLED d s = Some s' \<longrightarrow> limit s' = limit s"
    using blinkLED_limit by blast
  show "\<forall>s'. loop e s = Some s' \<longrightarrow> limit s' = limit s"
    using loop_limit by blast
  show "\<exists>s'. boot es = Some s' \<and> limit s' = 50"
    using boot_invariant [of es] by blast
qed

theorem limit_is_constant_witness:
  "(\<exists>s'. blinkLED 17.15 (sketch_setup power_on) = Some s' \<and> limit s' = 50)
   \<and> (\<exists>s'. loop (Echo 1000) (sketch_setup power_on) = Some s' \<and> limit s' = 50)
   \<and> (\<exists>s'. boot [Echo 1000, NoEcho, Echo 6000] = Some s' \<and> limit s' = 50)"
proof -
  note t = limit_is_constant [of "sketch_setup power_on" "Echo 1000" "[]" "17.15"
      "[Echo 1000, NoEcho, Echo 6000]"]
  have l: "limit (sketch_setup power_on) = 50" by (rule setup_limit)
  obtain s1 where s1: "blinkLED 17.15 (sketch_setup power_on) = Some s1"
    using blinkLED_Some [of "17.15" "sketch_setup power_on"] by simp
  obtain s2 where s2: "loop (Echo 1000) (sketch_setup power_on) = Some s2"
    using loop_Some [OF l] by blast
  have "limit s1 = 50" using t s1 l by simp
  moreover have "limit s2 = 50" using t s2 l by simp
  ultimately show ?thesis using t s1 s2 by blast
qed

text \<open>
  C10. Every blink that returns leaves the indicator pin low, and its last write to the
  pin is a low. After any number of cycles the indicator pin is low; and when the
  distance measured in the next cycle is not below 50, that cycle completes without
  writing to the indicator pin.
\<close>

theorem indicator_off_between_cycles:
  "(\<forall>s'. blinkLED d s = Some s' \<longrightarrow>
       levels s' LED = LOW
       \<and> last (filter (writes_pin LED) (since s s')) = DigitalWrite LED LOW)
   \<and> (\<exists>s. boot es = Some s \<and> levels s LED = LOW
        \<and> (\<not> fst (getDistance e s) < 50 \<longrightarrow>
             (\<exists>s'. loop e s = Some s' \<and> \<not> list_ex (writes_pin LED) (since s s'))))"
proof (intro conjI)
  show "\<forall>s'. blinkLED d s = Some s' \<longrightarrow>
       levels s' LED = LOW
       \<and> last (filter (writes_pin LED) (since s s')) = DigitalWrite LED LOW"
    by (auto dest!: blinkLED_SomeD simp: since_def)
  obtain s where s: "boot es = Some s" "limit s = 50" "levels s LED = LOW"
    using boot_invariant [of es] by blast
  have "\<exists>s'. loop e s = Some s' \<and> \<not> list_ex (writes_pin LED) (since s s')"
    if "\<not> fst (getDistance e s) < 50"
    using loop_run [OF s(2) refl, of e] that by (auto simp: pin_defs)
  with s show "\<exists>s. boot es = Some s \<and> levels s LED = LOW
        \<and> (\<not> fst (getDistance e s) < 50 \<longrightarrow>
             (\<exists>s'. loop e s = Some s' \<and> \<not> list_ex (writes_pin LED) (since s s')))"
    by blast
qed

theorem indicator_off_between_cycles_witness:
  "(\<exists>s'. blinkLED 17.15 power_on = Some s' \<and> levels s' LED = LOW)
   \<and> \<not> fst (getDistance (Echo 6000) (sketch_setup power_on)) < 50
   \<and> (\<exists>s'. loop (Echo 6000) (sketch_setup power_on) = Some s'
         \<and> \<not> list_ex (writes_pin LED) (since (sketch_setup power_on) s'))
   \<and> (\<exists>s. boot [Echo 1000, Echo 6000] = Some s \<and> levels s LED = LOW)"
proof -
  obtain s1 where s1: "blinkLED 17.15 power_on = Some s1"
    using blinkLED_Some [of "17.15" power_on] by simp
  have a: "levels s1 LED = LOW"
    using indicator_off_between_cycles [of "17.15" power_on "[]" NoEcho] s1 by blast
  have d: "\<not> fst (getDistance (Echo 6000) (sketch_setup power_on)) < 50"
    by (simp add: getDistance_eq cm_6000)
  have b0: "boot [] = Some (sketch_setup power_on)" by (simp add: boot_def)
  have b: "\<exists>s'. loop (Echo 6000) (sketch_setup power_on) = Some s'
         \<and> \<not> list_ex (writes_pin LED) (since (sketch_setup power_on) s')"
    using indicator_off_between_cycles [of "17.15" power_on "[]" "Echo 6000"] d b0 by auto
  have c: "\<exists>s. boot [Echo 1000, Echo 6000] = Some s \<and> levels s LED = LOW"
    using indicator_off_between_cycles [of "17.15" power_on "[Echo 1000, Echo 6000]" NoEcho]
    by blast
  show ?thesis using s1 a d b c by blast
qed

end
